theory Spec2Isabelle
  imports Complex_Main "HOL-Library.Word" "HOL-Library.Multiset"
begin

section \<open>The PDF tool server of \<^verbatim>\<open>src/index.ts\<close>\<close>

text \<open>
  The server registers three tools, \<^verbatim>\<open>remove-pdf-pages\<close>, \<^verbatim>\<open>add-text-watermark\<close> and
  \<^verbatim>\<open>merge-pdfs\<close>. Each handler is a \<^verbatim>\<open>try\<close> block that reads files, calls the PDF library
  on an in-memory document, writes one file and returns a text payload, with a
  \<^verbatim>\<open>catch\<close> that turns any exception into an error text.

  The handlers are modelled statement by statement. What they call in Node
  (\<^verbatim>\<open>fs.readFileSync\<close>, \<^verbatim>\<open>fs.writeFileSync\<close>, \<^verbatim>\<open>Buffer\<close>) and in the PDF library
  (\<^verbatim>\<open>PDFDocument\<close>) is modelled from the documented behaviour of those calls; the binary
  PDF format itself (parsing and serialising) is a parameter of the model.
\<close>

subsection \<open>Bytes and the base64 codec\<close>

type_synonym byte = "8 word"

text \<open>
  The base64 alphabet of RFC 4648: \<^verbatim>\<open>A-Z\<close>, \<^verbatim>\<open>a-z\<close>, \<^verbatim>\<open>0-9\<close>, \<^verbatim>\<open>+\<close>, \<^verbatim>\<open>/\<close>.
  \<open>b64_char\<close> maps a six-bit value to its character, \<open>b64_val\<close> is the reverse lookup.
\<close>

definition b64_char :: "nat \<Rightarrow> char" where
  "b64_char k =
     (if k < 26 then char_of (65 + k)
      else if k < 52 then char_of (71 + k)
      else if k < 62 then char_of (k - 4)
      else if k = 62 then CHR ''+''
      else CHR ''/'')"

definition b64_val :: "char \<Rightarrow> nat option" where
  "b64_val c =
     (let n = (of_char c :: nat) in
      if 65 \<le> n \<and> n \<le> 90 then Some (n - 65)
      else if 97 \<le> n \<and> n \<le> 122 then Some (n - 71)
      else if 48 \<le> n \<and> n \<le> 57 then Some (n + 4)
      else if n = 43 then Some 62
      else if n = 47 then Some 63
      else None)"

text \<open>
  \<^verbatim>\<open>Buffer.from(bytes).toString('base64')\<close>: three bytes become four characters; a tail of
  one or two bytes is padded with \<^verbatim>\<open>=\<close>.
\<close>

fun base64_encode :: "byte list \<Rightarrow> string" where
  "base64_encode [] = []"
| "base64_encode [a] =
     [b64_char (unat a div 4), b64_char ((unat a mod 4) * 16), CHR ''='', CHR ''='']"
| "base64_encode [a, b] =
     [b64_char (unat a div 4),
      b64_char ((unat a mod 4) * 16 + unat b div 16),
      b64_char ((unat b mod 16) * 4),
      CHR ''='']"
| "base64_encode (a # b # c # rest) =
     [b64_char (unat a div 4),
      b64_char ((unat a mod 4) * 16 + unat b div 16),
      b64_char ((unat b mod 16) * 4 + unat c div 64),
      b64_char (unat c mod 64)] @ base64_encode rest"

text \<open>
  Decoding of base64 text, as \<^verbatim>\<open>Buffer.from(text, 'base64')\<close> and the PDF library's loader
  do it on the text the encoder produces: four characters become three bytes, and a group
  that ends in padding ends the data. The handlers only ever decode text that
  \<open>base64_encode\<close> has produced; on other text this decoder stops at the first character
  outside the alphabet.
\<close>

fun base64_decode :: "string \<Rightarrow> byte list" where
  "base64_decode (c1 # c2 # c3 # c4 # rest) =
     (case (b64_val c1, b64_val c2) of
        (Some v1, Some v2) \<Rightarrow>
          (case b64_val c3 of
             None \<Rightarrow> [of_nat (v1 * 4 + v2 div 16)]
           | Some v3 \<Rightarrow>
               (case b64_val c4 of
                  None \<Rightarrow> [of_nat (v1 * 4 + v2 div 16), of_nat ((v2 mod 16) * 16 + v3 div 4)]
                | Some v4 \<Rightarrow>
                    [of_nat (v1 * 4 + v2 div 16),
                     of_nat ((v2 mod 16) * 16 + v3 div 4),
                     of_nat ((v3 mod 4) * 64 + v4)] @ base64_decode rest))
      | _ \<Rightarrow> [])"
| "base64_decode _ = []"


subsection \<open>JavaScript numbers\<close>

text \<open>
  The tool schema types a page number as \<^verbatim>\<open>z.number()\<close>: any finite JavaScript number,
  integer or not (NaN is rejected by the schema and a JSON request cannot carry an
  infinity). Every finite double is a rational number, so numbers are modelled as \<open>rat\<close>;
  the comparisons are exact, and so is \<^verbatim>\<open>pageNum - 1\<close> on every number that passes
  validation. Page sizes and drawing coordinates are numbers too; their arithmetic is
  modelled as exact rational arithmetic.
\<close>

type_synonym number = rat

definition is_integer :: "number \<Rightarrow> bool" where
  "is_integer n = (of_int \<lfloor>n\<rfloor> = n)"

subsection \<open>Documents of the PDF library\<close>

text \<open>The options object passed to \<^verbatim>\<open>page.drawText\<close>, together with the text drawn.\<close>

record drawing =
  draw_text :: string
  draw_x :: number
  draw_y :: number
  draw_size :: number
  draw_font :: string
  draw_color :: "number \<times> number \<times> number"
  draw_opacity :: number
  draw_rotate :: number

record page =
  page_width :: number
  page_height :: number
  page_content :: "drawing list"

record document =
  doc_pages :: "page list"
  doc_fonts :: "string list"

text \<open>
  Every exception a handler can catch. The first two are thrown by \<^verbatim>\<open>fs\<close>, the others by
  the PDF library; \<open>InvalidPDF\<close> and \<open>SaveFailed\<close> stand for whatever the parser and the
  serialiser throw.
\<close>

datatype error =
    ENOENT string
  | EACCES string
  | InvalidPDF
  | SaveFailed
  | RemovePageFromEmptyDocument
  | IndexOutOfRange number nat
  | InvalidTargetIndex number nat
  | CannotEncode string

text \<open>
  The parts of the PDF library that depend on the binary format or on font tables are
  parameters: the parser behind \<^verbatim>\<open>PDFDocument.load\<close>, the serialiser behind
  \<^verbatim>\<open>pdfDoc.save()\<close>, and whether the embedded Helvetica font can encode a text.
\<close>

record pdf_lib =
  parse_pdf :: "byte list \<Rightarrow> error + document"
  write_pdf :: "document \<Rightarrow> error + byte list"
  can_encode :: "string \<Rightarrow> bool"

text \<open>\<^verbatim>\<open>PDFDocument.load(text)\<close>: a string argument is base64 text, decoded before parsing.\<close>

definition PDFDocument_load :: "pdf_lib \<Rightarrow> string \<Rightarrow> error + document" where
  "PDFDocument_load lib pdfData = parse_pdf lib (base64_decode pdfData)"

definition PDFDocument_create :: document where
  "PDFDocument_create = \<lparr>doc_pages = [], doc_fonts = []\<rparr>"

definition getPageCount :: "document \<Rightarrow> nat" where
  "getPageCount doc = length (doc_pages doc)"

definition getPageIndices :: "document \<Rightarrow> nat list" where
  "getPageIndices doc = [0 ..< getPageCount doc]"

text \<open>
  \<^verbatim>\<open>pdfDoc.removePage(index)\<close> throws on an empty document and on an index outside
  \<open>0 .. pageCount - 1\<close>; it removes the page at an integer index; for an index in range
  that is not an integer the walk over the page tree finds no page and throws.
\<close>

definition removePage :: "document \<Rightarrow> number \<Rightarrow> error + document" where
  "removePage doc index =
     (let pageCount = getPageCount doc in
      if pageCount = 0 then Inl RemovePageFromEmptyDocument
      else if index < 0 \<or> index > of_nat pageCount - 1
        then Inl (IndexOutOfRange index (pageCount - 1))
      else if is_integer index
        then Inr (doc\<lparr>doc_pages :=
               take (nat \<lfloor>index\<rfloor>) (doc_pages doc) @ drop (Suc (nat \<lfloor>index\<rfloor>)) (doc_pages doc)\<rparr>)
      else Inl (InvalidTargetIndex index pageCount))"

definition copyPages :: "document \<Rightarrow> nat list \<Rightarrow> page list" where
  "copyPages srcDoc indices = map (\<lambda>i. doc_pages srcDoc ! i) indices"

definition addPage :: "document \<Rightarrow> page \<Rightarrow> document" where
  "addPage doc p = doc\<lparr>doc_pages := doc_pages doc @ [p]\<rparr>"

definition embedFont :: "document \<Rightarrow> string \<Rightarrow> document" where
  "embedFont doc name = doc\<lparr>doc_fonts := doc_fonts doc @ [name]\<rparr>"

text \<open>\<^verbatim>\<open>page.drawText(text, options)\<close> throws when the font cannot encode the text.\<close>

definition drawText :: "pdf_lib \<Rightarrow> page \<Rightarrow> drawing \<Rightarrow> error + page" where
  "drawText lib pg opts =
     (if can_encode lib (draw_text opts)
      then Inr (pg\<lparr>page_content := page_content pg @ [opts]\<rparr>)
      else Inl (CannotEncode (draw_text opts)))"

subsection \<open>The file system\<close>

text \<open>
  A file system maps a path to the bytes stored there; \<open>read_only\<close> holds the paths that
  cannot be opened for writing. A handler is a computation that may throw and that
  threads the file system through its statements.
\<close>

record filesystem =
  files :: "string \<rightharpoonup> byte list"
  read_only :: "string set"

type_synonym 'a io = "filesystem \<Rightarrow> (error + 'a) \<times> filesystem"

definition io_return :: "'a \<Rightarrow> 'a io" where
  "io_return x = (\<lambda>fs. (Inr x, fs))"

definition io_lift :: "error + 'a \<Rightarrow> 'a io" where
  "io_lift r = (\<lambda>fs. (r, fs))"

definition io_bind :: "'a io \<Rightarrow> ('a \<Rightarrow> 'b io) \<Rightarrow> 'b io" where
  "io_bind m f = (\<lambda>fs. case m fs of (Inl e, fs') \<Rightarrow> (Inl e, fs') | (Inr x, fs') \<Rightarrow> f x fs')"

text \<open>\<^verbatim>\<open>try { ... } catch (error) { return handler(error) }\<close>\<close>

definition io_catch :: "'a io \<Rightarrow> (error \<Rightarrow> 'a) \<Rightarrow> filesystem \<Rightarrow> 'a \<times> filesystem" where
  "io_catch m h = (\<lambda>fs. case m fs of (Inl e, fs') \<Rightarrow> (h e, fs') | (Inr x, fs') \<Rightarrow> (x, fs'))"

text \<open>
  \<^verbatim>\<open>fs.readFileSync(path, { encoding: 'base64' })\<close> returns the bytes of the file as base64
  text, and throws when the file does not exist.
\<close>

definition readFileSync :: "string \<Rightarrow> string io" where
  "readFileSync path = (\<lambda>fs.
     case files fs path of
       None \<Rightarrow> (Inl (ENOENT path), fs)
     | Some bytes \<Rightarrow> (Inr (base64_encode bytes), fs))"

text \<open>
  \<^verbatim>\<open>fs.writeFileSync(path, text, { encoding: 'base64' })\<close>: the encoding says how the
  string is turned into bytes, so the bytes stored are the base64 decoding of the text.
  It throws, and stores nothing, when the path cannot be opened for writing.
\<close>

definition writeFileSync :: "string \<Rightarrow> string \<Rightarrow> unit io" where
  "writeFileSync path text = (\<lambda>fs.
     if path \<in> read_only fs then (Inl (EACCES path), fs)
     else (Inr (), fs\<lparr>files := (files fs)(path \<mapsto> base64_decode text)\<rparr>))"

subsection \<open>The text payloads\<close>

text \<open>
  Each handler returns one text payload. The payloads are kept structured: the
  constructor is the fixed wording of the template literal and its arguments are the
  interpolated values.
  \<^item> \<open>RemovedPages n\<close>: \<^verbatim>\<open>Successfully removed ${n} pages from the PDF.\<close>
  \<^item> \<open>InvalidPageNumbers ns t\<close>:
    \<^verbatim>\<open>Error: Invalid page numbers: ${ns.join(', ')}. The document has ${t} pages.\<close>
  \<^item> \<open>ErrorProcessingPDF e\<close>: \<^verbatim>\<open>Error processing PDF: ${message of e}\<close>
  \<^item> \<open>AddedWatermark\<close>: \<^verbatim>\<open>Successfully added text watermark to the PDF.\<close>
  \<^item> \<open>MergedPDFs n out\<close>: \<^verbatim>\<open>Successfully merged ${n} PDFs into ${out}\<close>
  \<^item> \<open>ErrorMergingPDFs e\<close>: \<^verbatim>\<open>Error merging PDFs: ${message of e}\<close>
\<close>

datatype response =
    RemovedPages nat
  | InvalidPageNumbers "number list" nat
  | ErrorProcessingPDF error
  | AddedWatermark
  | MergedPDFs nat string
  | ErrorMergingPDFs error

fun is_error_text :: "response \<Rightarrow> bool" where
  "is_error_text (InvalidPageNumbers ns t) = True"
| "is_error_text (ErrorProcessingPDF e) = True"
| "is_error_text (ErrorMergingPDFs e) = True"
| "is_error_text r = False"

subsection \<open>remove-pdf-pages\<close>

text \<open>\<^verbatim>\<open>[...pageNumbers].sort((a, b) => b - a)\<close>: a stable sort into descending order.\<close>

definition sort_descending :: "number list \<Rightarrow> number list" where
  "sort_descending ns = sort_key (\<lambda>n. - n) ns"

text \<open>\<^verbatim>\<open>for (const pageNum of sortedPageNumbers) pdfDoc.removePage(pageNum - 1)\<close>\<close>

fun remove_loop :: "document \<Rightarrow> number list \<Rightarrow> error + document" where
  "remove_loop pdfDoc [] = Inr pdfDoc"
| "remove_loop pdfDoc (pageNum # rest) =
     (case removePage pdfDoc (pageNum - 1) of
        Inl e \<Rightarrow> Inl e
      | Inr pdfDoc' \<Rightarrow> remove_loop pdfDoc' rest)"

definition invalid_page :: "nat \<Rightarrow> number \<Rightarrow> bool" where
  "invalid_page totalPages num = (num < 1 \<or> num > of_nat totalPages)"

definition remove_pdf_pages_try :: "pdf_lib \<Rightarrow> string \<Rightarrow> number list \<Rightarrow> response io" where
  "remove_pdf_pages_try lib pdfPath pageNumbers =
     io_bind (readFileSync pdfPath) (\<lambda>pdfData.
     io_bind (io_lift (PDFDocument_load lib pdfData)) (\<lambda>pdfDoc.
       let totalPages = getPageCount pdfDoc;
           invalidPages = filter (invalid_page totalPages) pageNumbers
       in if length invalidPages > 0
          then io_return (InvalidPageNumbers invalidPages totalPages)
          else
            let sortedPageNumbers = sort_descending pageNumbers in
            io_bind (io_lift (remove_loop pdfDoc sortedPageNumbers)) (\<lambda>pdfDoc'.
            io_bind (io_lift (write_pdf lib pdfDoc')) (\<lambda>modifiedPdfBytes.
              let modifiedPdfBase64 = base64_encode modifiedPdfBytes in
              io_bind (writeFileSync pdfPath modifiedPdfBase64) (\<lambda>_.
              io_return (RemovedPages (length pageNumbers)))))))"

definition remove_pdf_pages ::
  "pdf_lib \<Rightarrow> string \<Rightarrow> number list \<Rightarrow> filesystem \<Rightarrow> response \<times> filesystem" where
  "remove_pdf_pages lib pdfPath pageNumbers =
     io_catch (remove_pdf_pages_try lib pdfPath pageNumbers) ErrorProcessingPDF"

subsection \<open>add-text-watermark\<close>

text \<open>
  The handler of the built server takes a \<^verbatim>\<open>position\<close>, one of seven keywords with
  default \<^verbatim>\<open>center\<close>, and draws in red at opacity 0.8; it is the one modelled. The
  TypeScript source of the handler has no such argument: it always draws at the
  coordinates of \<^verbatim>\<open>center\<close>, in grey at opacity 0.3, and is otherwise the same.
\<close>

datatype position = Center | Top | Bottom | TopLeft | TopRight | BottomLeft | BottomRight

definition textSize :: number where
  "textSize = 50"

definition padding :: number where
  "padding = 50"

text \<open>The \<^verbatim>\<open>switch (position)\<close> that sets \<^verbatim>\<open>x\<close> and \<^verbatim>\<open>y\<close> for a page of the given size.\<close>

fun watermark_anchor :: "position \<Rightarrow> number \<Rightarrow> number \<Rightarrow> number \<times> number" where
  "watermark_anchor Center width height = (width / 2 - 150, height / 2)"
| "watermark_anchor Top width height = (width / 2 - 150, height - padding)"
| "watermark_anchor Bottom width height = (width / 2 - 150, padding + textSize)"
| "watermark_anchor TopLeft width height = (padding, height - padding)"
| "watermark_anchor TopRight width height = (width - 300, height - padding)"
| "watermark_anchor BottomLeft width height = (padding, padding + textSize)"
| "watermark_anchor BottomRight width height = (width - 300, padding + textSize)"

definition watermark_options :: "string \<Rightarrow> position \<Rightarrow> page \<Rightarrow> drawing" where
  "watermark_options watermarkText pos pg =
     \<lparr>draw_text = watermarkText,
      draw_x = fst (watermark_anchor pos (page_width pg) (page_height pg)),
      draw_y = snd (watermark_anchor pos (page_width pg) (page_height pg)),
      draw_size = textSize,
      draw_font = ''Helvetica'',
      draw_color = (1, 0, 0),
      draw_opacity = 4 / 5,
      draw_rotate = 45\<rparr>"

text \<open>\<^verbatim>\<open>for (const page of pages) { ...; page.drawText(watermarkText, {...}) }\<close>\<close>

fun watermark_loop :: "pdf_lib \<Rightarrow> string \<Rightarrow> position \<Rightarrow> page list \<Rightarrow> error + page list" where
  "watermark_loop lib watermarkText pos [] = Inr []"
| "watermark_loop lib watermarkText pos (pg # rest) =
     (case drawText lib pg (watermark_options watermarkText pos pg) of
        Inl e \<Rightarrow> Inl e
      | Inr pg' \<Rightarrow>
          (case watermark_loop lib watermarkText pos rest of
             Inl e \<Rightarrow> Inl e
           | Inr rest' \<Rightarrow> Inr (pg' # rest')))"

definition draw_watermarks :: "pdf_lib \<Rightarrow> string \<Rightarrow> position \<Rightarrow> document \<Rightarrow> error + document" where
  "draw_watermarks lib watermarkText pos pdfDoc =
     (case watermark_loop lib watermarkText pos (doc_pages pdfDoc) of
        Inl e \<Rightarrow> Inl e
      | Inr pages' \<Rightarrow> Inr (pdfDoc\<lparr>doc_pages := pages'\<rparr>))"

definition add_text_watermark_try :: "pdf_lib \<Rightarrow> string \<Rightarrow> string \<Rightarrow> position \<Rightarrow> response io" where
  "add_text_watermark_try lib watermarkText pdfPath pos =
     io_bind (readFileSync pdfPath) (\<lambda>pdfData.
     io_bind (io_lift (PDFDocument_load lib pdfData)) (\<lambda>pdfDoc.
       let pdfDoc1 = embedFont pdfDoc ''Helvetica'' in
       io_bind (io_lift (draw_watermarks lib watermarkText pos pdfDoc1)) (\<lambda>pdfDoc'.
       io_bind (io_lift (write_pdf lib pdfDoc')) (\<lambda>modifiedPdfBytes.
         let modifiedPdfBase64 = base64_encode modifiedPdfBytes in
         io_bind (writeFileSync pdfPath modifiedPdfBase64) (\<lambda>_.
         io_return AddedWatermark)))))"

definition add_text_watermark ::
  "pdf_lib \<Rightarrow> string \<Rightarrow> string \<Rightarrow> position \<Rightarrow> filesystem \<Rightarrow> response \<times> filesystem" where
  "add_text_watermark lib watermarkText pdfPath pos =
     io_catch (add_text_watermark_try lib watermarkText pdfPath pos) ErrorProcessingPDF"

subsection \<open>merge-pdfs\<close>

text \<open>
  \<^verbatim>\<open>for (const pdfPath of pdfPaths) { read; load; copyPages; forEach(addPage) }\<close>,
  with the accumulating document as the loop state.
\<close>

fun merge_loop :: "pdf_lib \<Rightarrow> document \<Rightarrow> string list \<Rightarrow> document io" where
  "merge_loop lib mergedPdf [] = (\<lambda>fs. (Inr mergedPdf, fs))"
| "merge_loop lib mergedPdf (pdfPath # rest) = (\<lambda>fs.
     case readFileSync pdfPath fs of
       (Inl e, fs') \<Rightarrow> (Inl e, fs')
     | (Inr pdfData, fs') \<Rightarrow>
         (case PDFDocument_load lib pdfData of
            Inl e \<Rightarrow> (Inl e, fs')
          | Inr pdf \<Rightarrow>
              let copiedPages = copyPages pdf (getPageIndices pdf)
              in merge_loop lib (foldl addPage mergedPdf copiedPages) rest fs'))"

definition merge_pdfs_try :: "pdf_lib \<Rightarrow> string list \<Rightarrow> string \<Rightarrow> response io" where
  "merge_pdfs_try lib pdfPaths outputPath =
     io_bind (merge_loop lib PDFDocument_create pdfPaths) (\<lambda>mergedPdf.
     io_bind (io_lift (write_pdf lib mergedPdf)) (\<lambda>mergedPdfBytes.
       let mergedPdfBase64 = base64_encode mergedPdfBytes in
       io_bind (writeFileSync outputPath mergedPdfBase64) (\<lambda>_.
       io_return (MergedPDFs (length pdfPaths) outputPath))))"

definition merge_pdfs ::
  "pdf_lib \<Rightarrow> string list \<Rightarrow> string \<Rightarrow> filesystem \<Rightarrow> response \<times> filesystem" where
  "merge_pdfs lib pdfPaths outputPath =
     io_catch (merge_pdfs_try lib pdfPaths outputPath) ErrorMergingPDFs"

subsection \<open>A small concrete PDF format, for evaluating the handlers\<close>

text \<open>
  In this format a file is the byte \<open>37\<close> (the \<^verbatim>\<open>%\<close> that starts a PDF header) followed by
  one byte per page, the side of that square page. It instantiates the parser and
  serialiser parameters wherever a handler is evaluated on concrete files.
\<close>

definition square_page :: "byte \<Rightarrow> page" where
  "square_page b = \<lparr>page_width = of_nat (unat b), page_height = of_nat (unat b), page_content = []\<rparr>"

definition toy_parse :: "byte list \<Rightarrow> error + document" where
  "toy_parse bytes =
     (case bytes of
        [] \<Rightarrow> Inl InvalidPDF
      | h # rest \<Rightarrow>
          if h = 37 then Inr \<lparr>doc_pages = map square_page rest, doc_fonts = []\<rparr>
          else Inl InvalidPDF)"

definition toy_write :: "document \<Rightarrow> error + byte list" where
  "toy_write doc = Inr (37 # map (\<lambda>p. of_int \<lfloor>page_width p\<rfloor>) (doc_pages doc))"

definition toy_lib :: pdf_lib where
  "toy_lib = \<lparr>parse_pdf = toy_parse, write_pdf = toy_write, can_encode = (\<lambda>t. True)\<rparr>"

definition disk0 :: filesystem where
  "disk0 = \<lparr>files = [''a.pdf'' \<mapsto> [37, 10, 20, 30], ''b.pdf'' \<mapsto> [37, 40, 50]],
            read_only = {}\<rparr>"

subsection \<open>Vocabulary of the properties\<close>

text \<open>
  \<open>loads lib fs path doc\<close>: the file at \<open>path\<close> exists and the parser reads the document
  \<open>doc\<close> from its bytes.
\<close>

definition loads :: "pdf_lib \<Rightarrow> filesystem \<Rightarrow> string \<Rightarrow> document \<Rightarrow> bool" where
  "loads lib fs path doc =
     (case files fs path of None \<Rightarrow> False | Some bytes \<Rightarrow> parse_pdf lib bytes = Inr doc)"

text \<open>
  The specification's wording of an offending page number: a number that is
  \<open>\<le> 0\<close> or greater than the page count. The handler's own test is \<open>invalid_page\<close>.
\<close>

definition claimed_offending :: "nat \<Rightarrow> number \<Rightarrow> bool" where
  "claimed_offending totalPages num = (num \<le> 0 \<or> num > of_nat totalPages)"

text \<open>
  The text of a file as the bytes of its characters, for comparing what is on disk with
  base64 text.
\<close>

definition text_bytes :: "string \<Rightarrow> byte list" where
  "text_bytes s = map of_char s"

text \<open>Where a position keyword puts the watermark, horizontally and vertically.\<close>

datatype horizontal = AtLeft | Centred | AtRight

datatype vertical = AtTop | Middle | AtBottom

fun horizontal_of :: "position \<Rightarrow> horizontal" where
  "horizontal_of TopLeft = AtLeft"
| "horizontal_of BottomLeft = AtLeft"
| "horizontal_of TopRight = AtRight"
| "horizontal_of BottomRight = AtRight"
| "horizontal_of pos = Centred"

fun vertical_of :: "position \<Rightarrow> vertical" where
  "vertical_of Top = AtTop"
| "vertical_of TopLeft = AtTop"
| "vertical_of TopRight = AtTop"
| "vertical_of Bottom = AtBottom"
| "vertical_of BottomLeft = AtBottom"
| "vertical_of BottomRight = AtBottom"
| "vertical_of Center = Middle"

text \<open>
  The specification's wording of the anchor: corner and edge positions are offset from
  the page boundary by the padding, and horizontally centred positions by half the
  approximate width of the text (the constant 150).
\<close>

definition claimed_anchor :: "position \<Rightarrow> number \<Rightarrow> number \<Rightarrow> number \<times> number" where
  "claimed_anchor pos width height =
     (case horizontal_of pos of
        AtLeft \<Rightarrow> padding
      | Centred \<Rightarrow> width / 2 - 150
      | AtRight \<Rightarrow> width - padding,
      case vertical_of pos of
        AtTop \<Rightarrow> height - padding
      | Middle \<Rightarrow> height / 2
      | AtBottom \<Rightarrow> padding)"

text \<open>
  The rule the handler follows: the right corners are offset by 300, twice the constant
  of the centred positions, and the bottom positions by the padding plus the text size.
\<close>

definition anchor_rule :: "position \<Rightarrow> number \<Rightarrow> number \<Rightarrow> number \<times> number" where
  "anchor_rule pos width height =
     (case horizontal_of pos of
        AtLeft \<Rightarrow> padding
      | Centred \<Rightarrow> width / 2 - 150
      | AtRight \<Rightarrow> width - 2 * 150,
      case vertical_of pos of
        AtTop \<Rightarrow> height - padding
      | Middle \<Rightarrow> height / 2
      | AtBottom \<Rightarrow> padding + textSize)"

text \<open>A page with the watermark drawn on top of its content, at the anchor of \<open>anchor_rule\<close>.\<close>

definition stamped :: "string \<Rightarrow> position \<Rightarrow> page \<Rightarrow> page" where
  "stamped watermarkText pos pg =
     pg\<lparr>page_content := page_content pg @
       [\<lparr>draw_text = watermarkText,
         draw_x = fst (anchor_rule pos (page_width pg) (page_height pg)),
         draw_y = snd (anchor_rule pos (page_width pg) (page_height pg)),
         draw_size = 50,
         draw_font = ''Helvetica'',
         draw_color = (1, 0, 0),
         draw_opacity = 4 / 5,
         draw_rotate = 45\<rparr>]\<rparr>"

section \<open>Properties\<close>

subsection \<open>The base64 codec\<close>

lemma b64_val_b64_char: "k < 64 \<Longrightarrow> b64_val (b64_char k) = Some k"
  unfolding b64_val_def b64_char_def Let_def
  by (simp add: of_char_of) arith

lemma b64_val_pad: "b64_val (CHR ''='') = None"
  by (simp add: b64_val_def)

lemma unat_byte_less: "unat (a :: byte) < 256"
  using unsigned_less [of a] by simp

lemma base64_group1: "x < 256 \<Longrightarrow> (x div 4) * 4 + ((x mod 4) * 16) div 16 = (x :: nat)"
  by simp

lemma base64_group2:
  "y < 256 \<Longrightarrow> (x div 4) * 4 + ((x mod 4) * 16 + y div 16) div 16 = (x :: nat)"
  by simp

lemma base64_group3:
  "y < 256 \<Longrightarrow> z < 256 \<Longrightarrow>
   (((x mod 4) * 16 + y div 16) mod 16) * 16 + ((y mod 16) * 4 + z div 64) div 4 = (y :: nat)"
  by simp

lemma base64_group4:
  "z < 256 \<Longrightarrow> (((y mod 16) * 4 + z div 64) mod 4) * 64 + z mod 64 = (z :: nat)"
  by simp

lemma b64_bounds:
  "x < 256 \<Longrightarrow> x div 4 < (64::nat)"
  "(x mod 4) * 16 < (64::nat)"
  "y < 256 \<Longrightarrow> (x mod 4) * 16 + y div 16 < (64::nat)"
  "(y mod 16) * 4 < (64::nat)"
  "z < 256 \<Longrightarrow> (y mod 16) * 4 + z div 64 < (64::nat)"
  "z mod 64 < (64::nat)"
  by simp_all

lemma base64_decode_encode: "base64_decode (base64_encode bs) = bs"
proof (induction bs rule: base64_encode.induct)
  case 1
  show ?case by simp
next
  case (2 a)
  show ?case
    using unat_byte_less [of a]
    by (simp add: b64_val_b64_char b64_val_pad b64_bounds base64_group1)
next
  case (3 a b)
  show ?case
    using unat_byte_less [of a] unat_byte_less [of b]
    by (simp add: b64_val_b64_char b64_val_pad b64_bounds base64_group2
        base64_group3 [where z = 0, simplified])
next
  case (4 a b c rest)
  show ?case
    using unat_byte_less [of a] unat_byte_less [of b] unat_byte_less [of c] 4
    by (simp add: b64_val_b64_char b64_val_pad b64_bounds base64_group2 base64_group3 base64_group4)
qed

subsection \<open>The handlers, statement by statement\<close>

lemmas io_defs = io_bind_def io_lift_def io_return_def io_catch_def readFileSync_def
  writeFileSync_def PDFDocument_load_def

lemma remove_pdf_pages_unfold:
  "remove_pdf_pages lib p ns fs =
     (case files fs p of
        None \<Rightarrow> (ErrorProcessingPDF (ENOENT p), fs)
      | Some bytes \<Rightarrow>
          (case parse_pdf lib bytes of
             Inl e \<Rightarrow> (ErrorProcessingPDF e, fs)
           | Inr d \<Rightarrow>
               if filter (invalid_page (getPageCount d)) ns \<noteq> []
               then (InvalidPageNumbers (filter (invalid_page (getPageCount d)) ns) (getPageCount d), fs)
               else
                 (case remove_loop d (sort_descending ns) of
                    Inl e \<Rightarrow> (ErrorProcessingPDF e, fs)
                  | Inr d' \<Rightarrow>
                      (case write_pdf lib d' of
                         Inl e \<Rightarrow> (ErrorProcessingPDF e, fs)
                       | Inr out \<Rightarrow>
                           if p \<in> read_only fs then (ErrorProcessingPDF (EACCES p), fs)
                           else (RemovedPages (length ns), fs\<lparr>files := (files fs)(p \<mapsto> out)\<rparr>)))))"
  by (simp add: remove_pdf_pages_def remove_pdf_pages_try_def io_defs base64_decode_encode Let_def
      split: option.splits sum.splits)

lemma add_text_watermark_unfold:
  "add_text_watermark lib txt p pos fs =
     (case files fs p of
        None \<Rightarrow> (ErrorProcessingPDF (ENOENT p), fs)
      | Some bytes \<Rightarrow>
          (case parse_pdf lib bytes of
             Inl e \<Rightarrow> (ErrorProcessingPDF e, fs)
           | Inr d \<Rightarrow>
               (case draw_watermarks lib txt pos (embedFont d ''Helvetica'') of
                  Inl e \<Rightarrow> (ErrorProcessingPDF e, fs)
                | Inr d' \<Rightarrow>
                    (case write_pdf lib d' of
                       Inl e \<Rightarrow> (ErrorProcessingPDF e, fs)
                     | Inr out \<Rightarrow>
                         if p \<in> read_only fs then (ErrorProcessingPDF (EACCES p), fs)
                         else (AddedWatermark, fs\<lparr>files := (files fs)(p \<mapsto> out)\<rparr>)))))"
  by (simp add: add_text_watermark_def add_text_watermark_try_def io_defs base64_decode_encode Let_def
      split: option.splits sum.splits)

lemma merge_pdfs_unfold:
  "merge_pdfs lib ps out fs =
     (case merge_loop lib PDFDocument_create ps fs of
        (Inl e, fs') \<Rightarrow> (ErrorMergingPDFs e, fs')
      | (Inr merged, fs') \<Rightarrow>
          (case write_pdf lib merged of
             Inl e \<Rightarrow> (ErrorMergingPDFs e, fs')
           | Inr bytes \<Rightarrow>
               if out \<in> read_only fs' then (ErrorMergingPDFs (EACCES out), fs')
               else (MergedPDFs (length ps) out, fs'\<lparr>files := (files fs')(out \<mapsto> bytes)\<rparr>)))"
  by (simp add: merge_pdfs_def merge_pdfs_try_def io_defs base64_decode_encode Let_def
      split: option.splits sum.splits prod.splits)

subsection \<open>The loops\<close>

lemma removePage_Inr:
  assumes "removePage d i = Inr d'"
  shows "is_integer i" and "0 \<le> i" and "i \<le> of_nat (getPageCount d) - 1"
    and "getPageCount d' = getPageCount d - 1" and "0 < getPageCount d"
proof -
  from assms show int: "is_integer i" and lo: "0 \<le> i" and hi: "i \<le> of_nat (getPageCount d) - 1"
    and pos: "0 < getPageCount d"
    by (auto simp: removePage_def Let_def split: if_splits)
  from hi have "\<lfloor>i\<rfloor> \<le> \<lfloor>of_nat (getPageCount d) - (1::rat)\<rfloor>"
    by (rule floor_mono)
  then have "\<lfloor>i\<rfloor> \<le> int (getPageCount d) - 1"
    by simp
  with pos have "nat \<lfloor>i\<rfloor> < getPageCount d"
    by linarith
  moreover from assms int lo hi pos
  have "d' = d\<lparr>doc_pages := take (nat \<lfloor>i\<rfloor>) (doc_pages d) @ drop (Suc (nat \<lfloor>i\<rfloor>)) (doc_pages d)\<rparr>"
    by (auto simp: removePage_def Let_def split: if_splits)
  ultimately show "getPageCount d' = getPageCount d - 1"
    by (simp add: getPageCount_def)
qed

lemma remove_loop_count:
  "remove_loop d xs = Inr d' \<Longrightarrow> getPageCount d' = getPageCount d - length xs"
proof (induction xs arbitrary: d)
  case Nil
  then show ?case by simp
next
  case (Cons x xs)
  then obtain d1 where r: "removePage d (x - 1) = Inr d1" and l: "remove_loop d1 xs = Inr d'"
    by (auto split: sum.splits)
  from Cons.IH [OF l] removePage_Inr(4) [OF r] show ?case by simp
qed


lemma sort_descending_mset:
  assumes "mset ns = mset ns'"
  shows "sort_descending ns = sort_descending ns'"
  unfolding sort_descending_def
proof (rule sort_key_inj_key_eq)
  show "mset ns = mset (sort_key (\<lambda>n. - n) ns')" using assms by simp
  show "inj_on (\<lambda>n. - n) (set ns)" by (simp add: inj_on_def)
  show "sorted (map (\<lambda>n. - n) (sort_key (\<lambda>n. - n) ns'))" by simp
qed

lemma foldl_addPage: "foldl addPage acc ps = acc\<lparr>doc_pages := doc_pages acc @ ps\<rparr>"
  by (induction ps arbitrary: acc) (simp_all add: addPage_def)

lemma copyPages_all: "copyPages d (getPageIndices d) = doc_pages d"
  by (simp add: copyPages_def getPageIndices_def getPageCount_def map_nth)

lemma merge_loop_step:
  assumes "loads lib fs p d"
  shows "merge_loop lib acc (p # ps) fs =
         merge_loop lib (acc\<lparr>doc_pages := doc_pages acc @ doc_pages d\<rparr>) ps fs"
  using assms
  by (auto simp: loads_def readFileSync_def PDFDocument_load_def base64_decode_encode
      copyPages_all foldl_addPage split: option.splits)

lemma merge_loop_concat:
  "list_all2 (loads lib fs) ps docs \<Longrightarrow>
   merge_loop lib acc ps fs =
     (Inr (acc\<lparr>doc_pages := doc_pages acc @ concat (map doc_pages docs)\<rparr>), fs)"
proof (induction ps docs arbitrary: acc rule: list_all2_induct)
  case Nil
  show ?case by simp
next
  case (Cons p ps d docs)
  show ?case
    unfolding merge_loop_step [OF Cons.hyps(1)] Cons.IH by simp
qed

lemma merge_loop_fs: "snd (merge_loop lib acc ps fs) = fs"
  by (induction ps arbitrary: acc)
     (auto simp: readFileSync_def Let_def split: option.splits sum.splits prod.splits)

lemma merge_loop_missing:
  "\<exists>p \<in> set ps. files fs p = None \<Longrightarrow> \<exists>e. merge_loop lib acc ps fs = (Inl e, fs)"
proof (induction ps arbitrary: acc)
  case Nil
  then show ?case by simp
next
  case (Cons p ps)
  show ?case
  proof (cases "files fs p")
    case None
    then show ?thesis by (simp add: readFileSync_def)
  next
    case (Some bytes)
    with Cons.prems have "\<exists>q \<in> set ps. files fs q = None" by auto
    from Cons.IH [OF this] Some show ?thesis
      by (auto simp: readFileSync_def Let_def split: sum.splits)
  qed
qed

lemma watermark_loop_map:
  "watermark_loop lib txt pos pgs = Inr pgs' \<Longrightarrow>
   pgs' = map (\<lambda>pg. pg\<lparr>page_content := page_content pg @ [watermark_options txt pos pg]\<rparr>) pgs"
  by (induction pgs arbitrary: pgs') (auto simp: drawText_def split: sum.splits if_splits)

subsection \<open>Page numbers\<close>

lemma invalid_page_integer:
  assumes "is_integer n"
  shows "invalid_page N n = claimed_offending N n"
proof -
  from assms have "of_int \<lfloor>n\<rfloor> = n" unfolding is_integer_def .
  then obtain z :: int where n: "n = of_int z" by (rule sym [THEN that])
  have "(z < 1) = (z \<le> 0)" by presburger
  then have "(n < 1) = (n \<le> 0)" unfolding n by simp
  then show ?thesis
    by (simp add: invalid_page_def claimed_offending_def)
qed




subsection \<open>Removing valid page numbers without repetitions\<close>

lemma is_integer_less:
  assumes "is_integer x" and "is_integer y" and "y < x"
  shows "y \<le> x - 1"
proof -
  from assms(1) have "of_int \<lfloor>x\<rfloor> = x" unfolding is_integer_def .
  then obtain a :: int where x: "x = of_int a" by (rule sym [THEN that])
  from assms(2) have "of_int \<lfloor>y\<rfloor> = y" unfolding is_integer_def .
  then obtain b :: int where y: "y = of_int b" by (rule sym [THEN that])
  from assms(3) have "b < a" unfolding x y by simp
  then have "b \<le> a - 1" by simp
  then have "(of_int b :: rat) \<le> of_int (a - 1)" by (simp only: of_int_le_iff)
  then show ?thesis unfolding x y by simp
qed

lemma removePage_ok:
  assumes "is_integer x" and "1 \<le> x" and "x \<le> of_nat (getPageCount d)"
  shows "\<exists>d'. removePage d (x - 1) = Inr d'"
proof -
  from assms(2,3) have "(0::rat) < of_nat (getPageCount d)" by linarith
  then have "getPageCount d \<noteq> 0" by simp
  moreover from assms(1) have "is_integer (x - 1)" by (simp add: is_integer_def)
  ultimately show ?thesis using assms(2,3)
    by (simp add: removePage_def Let_def)
qed

lemma remove_loop_descending:
  assumes "sorted (map (\<lambda>n. - n) xs)" and "distinct xs"
    and "\<forall>x \<in> set xs. is_integer x \<and> 1 \<le> x \<and> x \<le> of_nat (getPageCount d)"
  shows "\<exists>d'. remove_loop d xs = Inr d' \<and> getPageCount d' = getPageCount d - length xs"
  using assms
proof (induction xs arbitrary: d)
  case Nil
  show ?case by simp
next
  case (Cons x xs)
  from Cons.prems(3) have x: "is_integer x" "1 \<le> x" "x \<le> of_nat (getPageCount d)"
    by simp_all
  from removePage_ok [OF x] obtain d1 where r: "removePage d (x - 1) = Inr d1" ..
  note c = removePage_Inr(4,5) [OF r]
  have "\<forall>y \<in> set xs. is_integer y \<and> 1 \<le> y \<and> y \<le> of_nat (getPageCount d1)"
  proof
    fix y assume y: "y \<in> set xs"
    with Cons.prems(3) have iy: "is_integer y" and ly: "1 \<le> y" by simp_all
    from y Cons.prems(1) have "y \<le> x" by auto
    moreover from y Cons.prems(2) have "y \<noteq> x" by auto
    ultimately have "y < x" by simp
    from is_integer_less [OF x(1) iy this] x(3) have "y \<le> of_nat (getPageCount d) - 1"
      by simp
    also from c have "of_nat (getPageCount d) - 1 = (of_nat (getPageCount d1) :: rat)"
      by (simp add: of_nat_diff)
    finally show "is_integer y \<and> 1 \<le> y \<and> y \<le> of_nat (getPageCount d1)"
      using iy ly by simp
  qed
  moreover from Cons.prems(1,2) have "sorted (map (\<lambda>n. - n) xs)" "distinct xs" by simp_all
  ultimately obtain d' where "remove_loop d1 xs = Inr d'"
    and "getPageCount d' = getPageCount d1 - length xs"
    using Cons.IH by blast
  with r c show ?case by simp
qed

text \<open>
  On a list of valid integer page numbers without repetitions the removal succeeds and
  removes as many pages as the list has numbers.
\<close>

lemma remove_distinct_pages:
  assumes "distinct ns"
    and "\<forall>n \<in> set ns. is_integer n \<and> 1 \<le> n \<and> n \<le> of_nat (getPageCount d)"
  shows "\<exists>d'. remove_loop d (sort_descending ns) = Inr d'
           \<and> getPageCount d' = getPageCount d - card (set ns)"
proof -
  have "sorted (map (\<lambda>n. - n) (sort_descending ns))" "distinct (sort_descending ns)"
    "set (sort_descending ns) = set ns" "length (sort_descending ns) = length ns"
    using assms(1) by (simp_all add: sort_descending_def)
  with remove_loop_descending [of "sort_descending ns" d] assms
  show ?thesis by (simp add: distinct_card)
qed

subsection \<open>Evaluating the handlers on the concrete format\<close>

lemmas toy_defs = toy_lib_def toy_parse_def toy_write_def square_page_def disk0_def

lemmas eval_defs = toy_defs loads_def getPageCount_def invalid_page_def sort_descending_def
  removePage_def is_integer_def Let_def

lemma example_merge_loop:
  "merge_loop toy_lib PDFDocument_create [''a.pdf'', ''b.pdf''] disk0 =
   (Inr \<lparr>doc_pages = map square_page [10, 20, 30, 40, 50], doc_fonts = []\<rparr>, disk0)"
proof -
  have "list_all2 (loads toy_lib disk0) [''a.pdf'', ''b.pdf'']
     [\<lparr>doc_pages = map square_page [10, 20, 30], doc_fonts = []\<rparr>,
      \<lparr>doc_pages = map square_page [40, 50], doc_fonts = []\<rparr>]"
    by (simp add: toy_defs loads_def)
  from merge_loop_concat [OF this] show ?thesis
    by (simp add: PDFDocument_create_def)
qed

section \<open>The claims\<close>

subsection \<open>C1: what is stored on disk\<close>

text \<open>
  C1, as stated: after a successful call the destination file holds the base64 text of the
  PDF bytes the transformation produced. It does not. Removing page 2 of the
  three-page file \<^verbatim>\<open>a.pdf\<close> succeeds, the serialiser produces the bytes \<open>[37, 10, 30]\<close>,
  whose base64 text is \<^verbatim>\<open>JQoe\<close>, and the file then holds the three bytes themselves, not
  the four characters of the text. (The file read at the start, \<open>[37, 10, 20, 30]\<close>, is
  not base64 text either.)
\<close>

theorem disk_content_not_base64_text:
  "fst (remove_pdf_pages toy_lib ''a.pdf'' [2] disk0) = RemovedPages 1
   \<and> remove_loop \<lparr>doc_pages = [square_page 10, square_page 20, square_page 30], doc_fonts = []\<rparr>
        (sort_descending [2])
      = Inr \<lparr>doc_pages = [square_page 10, square_page 30], doc_fonts = []\<rparr>
   \<and> write_pdf toy_lib \<lparr>doc_pages = [square_page 10, square_page 30], doc_fonts = []\<rparr>
      = Inr [37, 10, 30]
   \<and> base64_encode [37, 10, 30] = ''JQoe''
   \<and> files (snd (remove_pdf_pages toy_lib ''a.pdf'' [2] disk0)) ''a.pdf'' = Some [37, 10, 30]
   \<and> files (snd (remove_pdf_pages toy_lib ''a.pdf'' [2] disk0)) ''a.pdf''
      \<noteq> Some (text_bytes ''JQoe'')"
proof -
  have "base64_encode [37, 10, 30] = ''JQoe''"
    by (simp add: b64_char_def char_of_eq_iff)
  then show ?thesis
    by (simp add: remove_pdf_pages_unfold eval_defs text_bytes_def)
qed

text \<open>
  C1, amended: the base64 text exists only in memory. \<open>readFileSync\<close> turns the raw
  bytes of the file into base64 text and the loader decodes it again, so the document is
  parsed from the raw bytes; \<open>writeFileSync\<close> decodes the base64 text it is given. After a
  successful call of any of the three tools the destination file holds the bytes that the
  serialiser produced from the transformed document, as raw binary.
\<close>

theorem disk_content_is_pdf_bytes:
  "(files fs p = Some raw \<longrightarrow>
      readFileSync p fs = (Inr (base64_encode raw), fs)
      \<and> PDFDocument_load lib (base64_encode raw) = parse_pdf lib raw)
   \<and> (q \<notin> read_only fs \<longrightarrow>
      files (snd (writeFileSync q (base64_encode produced) fs)) q = Some produced)
   \<and> (fst (remove_pdf_pages lib p ns fs) = RemovedPages k \<longrightarrow>
      (\<exists>d d' out. loads lib fs p d \<and> remove_loop d (sort_descending ns) = Inr d'
         \<and> write_pdf lib d' = Inr out
         \<and> files (snd (remove_pdf_pages lib p ns fs)) p = Some out))
   \<and> (fst (add_text_watermark lib wm p pos fs) = AddedWatermark \<longrightarrow>
      (\<exists>d d' out. loads lib fs p d
         \<and> draw_watermarks lib wm pos (embedFont d ''Helvetica'') = Inr d'
         \<and> write_pdf lib d' = Inr out
         \<and> files (snd (add_text_watermark lib wm p pos fs)) p = Some out))
   \<and> (fst (merge_pdfs lib ps outp fs) = MergedPDFs k' outp' \<longrightarrow>
      (\<exists>merged out. merge_loop lib PDFDocument_create ps fs = (Inr merged, fs)
         \<and> write_pdf lib merged = Inr out
         \<and> files (snd (merge_pdfs lib ps outp fs)) outp = Some out))"
proof (intro conjI impI)
  assume "files fs p = Some raw"
  then show "readFileSync p fs = (Inr (base64_encode raw), fs)"
    by (simp add: readFileSync_def)
next
  show "PDFDocument_load lib (base64_encode raw) = parse_pdf lib raw"
    by (simp add: PDFDocument_load_def base64_decode_encode)
next
  assume "q \<notin> read_only fs"
  then show "files (snd (writeFileSync q (base64_encode produced) fs)) q = Some produced"
    by (simp add: writeFileSync_def base64_decode_encode)
next
  assume "fst (remove_pdf_pages lib p ns fs) = RemovedPages k"
  then show "\<exists>d d' out. loads lib fs p d \<and> remove_loop d (sort_descending ns) = Inr d'
         \<and> write_pdf lib d' = Inr out
         \<and> files (snd (remove_pdf_pages lib p ns fs)) p = Some out"
    by (auto simp: remove_pdf_pages_unfold loads_def split: option.splits sum.splits if_splits)
next
  assume "fst (add_text_watermark lib wm p pos fs) = AddedWatermark"
  then show "\<exists>d d' out. loads lib fs p d
         \<and> draw_watermarks lib wm pos (embedFont d ''Helvetica'') = Inr d'
         \<and> write_pdf lib d' = Inr out
         \<and> files (snd (add_text_watermark lib wm p pos fs)) p = Some out"
    by (auto simp: add_text_watermark_unfold loads_def split: option.splits sum.splits if_splits)
next
  assume a: "fst (merge_pdfs lib ps outp fs) = MergedPDFs k' outp'"
  obtain r fs' where m: "merge_loop lib PDFDocument_create ps fs = (r, fs')"
    by (cases "merge_loop lib PDFDocument_create ps fs")
  with merge_loop_fs [of lib PDFDocument_create ps fs] have "fs' = fs" by simp
  with a m show "\<exists>merged out. merge_loop lib PDFDocument_create ps fs = (Inr merged, fs)
         \<and> write_pdf lib merged = Inr out
         \<and> files (snd (merge_pdfs lib ps outp fs)) outp = Some out"
    by (auto simp: merge_pdfs_unfold split: sum.splits if_splits)
qed

theorem disk_content_is_pdf_bytes_witness:
  "files disk0 ''a.pdf'' = Some [37, 10, 20, 30]
   \<and> ''a.pdf'' \<notin> read_only disk0
   \<and> fst (remove_pdf_pages toy_lib ''a.pdf'' [2] disk0) = RemovedPages 1
   \<and> fst (add_text_watermark toy_lib ''DRAFT'' ''a.pdf'' Center disk0) = AddedWatermark
   \<and> fst (merge_pdfs toy_lib [''a.pdf'', ''b.pdf''] ''out.pdf'' disk0) = MergedPDFs 2 ''out.pdf''
   \<and> readFileSync ''a.pdf'' disk0 = (Inr (base64_encode [37, 10, 20, 30]), disk0)
   \<and> PDFDocument_load toy_lib (base64_encode [37, 10, 20, 30]) = parse_pdf toy_lib [37, 10, 20, 30]
   \<and> files (snd (writeFileSync ''a.pdf'' (base64_encode [37, 10, 30]) disk0)) ''a.pdf''
      = Some [37, 10, 30]
   \<and> (\<exists>d d' out. loads toy_lib disk0 ''a.pdf'' d \<and> remove_loop d (sort_descending [2]) = Inr d'
         \<and> write_pdf toy_lib d' = Inr out
         \<and> files (snd (remove_pdf_pages toy_lib ''a.pdf'' [2] disk0)) ''a.pdf'' = Some out)
   \<and> (\<exists>d d' out. loads toy_lib disk0 ''a.pdf'' d
         \<and> draw_watermarks toy_lib ''DRAFT'' Center (embedFont d ''Helvetica'') = Inr d'
         \<and> write_pdf toy_lib d' = Inr out
         \<and> files (snd (add_text_watermark toy_lib ''DRAFT'' ''a.pdf'' Center disk0)) ''a.pdf''
            = Some out)
   \<and> (\<exists>merged out.
         merge_loop toy_lib PDFDocument_create [''a.pdf'', ''b.pdf''] disk0 = (Inr merged, disk0)
         \<and> write_pdf toy_lib merged = Inr out
         \<and> files (snd (merge_pdfs toy_lib [''a.pdf'', ''b.pdf''] ''out.pdf'' disk0)) ''out.pdf''
            = Some out)"
proof -
  have h0: "files disk0 ''a.pdf'' = Some [37, 10, 20, 30]" "''a.pdf'' \<notin> read_only disk0"
    by (simp_all add: disk0_def)
  have h1: "fst (remove_pdf_pages toy_lib ''a.pdf'' [2] disk0) = RemovedPages 1"
    by (simp add: remove_pdf_pages_unfold eval_defs)
  have h2: "fst (add_text_watermark toy_lib ''DRAFT'' ''a.pdf'' Center disk0) = AddedWatermark"
    by (simp add: add_text_watermark_unfold eval_defs embedFont_def draw_watermarks_def
        drawText_def)
  have h3: "fst (merge_pdfs toy_lib [''a.pdf'', ''b.pdf''] ''out.pdf'' disk0) = MergedPDFs 2 ''out.pdf''"
    unfolding merge_pdfs_unfold example_merge_loop by (simp add: toy_defs)
  from h0 h1 h2 h3
    disk_content_is_pdf_bytes [where lib = toy_lib and fs = disk0 and p = "''a.pdf''"
      and q = "''a.pdf''" and raw = "[37, 10, 20, 30]" and produced = "[37, 10, 30]"
      and ns = "[2]" and k = 1 and wm = "''DRAFT''" and pos = Center
      and ps = "[''a.pdf'', ''b.pdf'']" and outp = "''out.pdf''" and k' = 2
      and outp' = "''out.pdf''"]
  show ?thesis by blast
qed

subsection \<open>C2: the page count after a removal\<close>

lemma remove_pdf_pages_count:
  assumes "fst (remove_pdf_pages lib p ns fs) = RemovedPages k"
  shows "\<exists>d d' out. loads lib fs p d \<and> remove_loop d (sort_descending ns) = Inr d'
           \<and> write_pdf lib d' = Inr out
           \<and> files (snd (remove_pdf_pages lib p ns fs)) p = Some out
           \<and> getPageCount d' = getPageCount d - length ns \<and> k = length ns"
proof -
  from assms obtain d d' out where
    *: "loads lib fs p d" "remove_loop d (sort_descending ns) = Inr d'" "write_pdf lib d' = Inr out"
       "files (snd (remove_pdf_pages lib p ns fs)) p = Some out" "k = length ns"
    by (auto simp: remove_pdf_pages_unfold loads_def split: option.splits sum.splits if_splits)
  from remove_loop_count [OF *(2)] have "getPageCount d' = getPageCount d - length ns"
    by (simp add: sort_descending_def)
  with * show ?thesis by blast
qed

text \<open>
  C2: with the three-page file \<^verbatim>\<open>a.pdf\<close> and the page numbers \<open>[2, 2]\<close>, both valid and
  one distinct, the call succeeds and the document written has one page (the first),
  not the two that the original count minus the number of distinct page numbers gives:
  after page 2 is removed, the second \<open>removePage(1)\<close> removes what was page 3.
\<close>

theorem duplicate_page_number_removes_another_page:
  "fst (remove_pdf_pages toy_lib ''a.pdf'' [2, 2] disk0) = RemovedPages 2
   \<and> loads toy_lib disk0 ''a.pdf'' \<lparr>doc_pages = map square_page [10, 20, 30], doc_fonts = []\<rparr>
   \<and> filter (invalid_page 3) [2, 2] = []
   \<and> remove_loop \<lparr>doc_pages = map square_page [10, 20, 30], doc_fonts = []\<rparr>
        (sort_descending [2, 2])
      = Inr \<lparr>doc_pages = map square_page [10], doc_fonts = []\<rparr>
   \<and> files (snd (remove_pdf_pages toy_lib ''a.pdf'' [2, 2] disk0)) ''a.pdf'' = Some [37, 10]
   \<and> getPageCount \<lparr>doc_pages = map square_page [10], doc_fonts = []\<rparr> = 1
   \<and> 3 - card (set [2, 2 :: number]) = 2"
  by (simp add: remove_pdf_pages_unfold eval_defs)

subsection \<open>C3: the validation error\<close>

text \<open>
  C3, as stated: the error names exactly the numbers that are \<open>\<le> 0\<close> or greater than the
  page count. On the three-page file, for the page numbers \<open>[0, 1/2]\<close> the error names
  \<open>0\<close> and \<open>1/2\<close>, and \<open>1/2\<close> is neither.
\<close>

theorem validation_names_fraction_below_one:
  "fst (remove_pdf_pages toy_lib ''a.pdf'' [0, 1 / 2] disk0) = InvalidPageNumbers [0, 1 / 2] 3
   \<and> filter (claimed_offending 3) [0, 1 / 2] = [0]
   \<and> fst (remove_pdf_pages toy_lib ''a.pdf'' [0, 1 / 2] disk0)
      \<noteq> InvalidPageNumbers (filter (claimed_offending 3) [0, 1 / 2]) 3"
  by (simp add: remove_pdf_pages_unfold eval_defs claimed_offending_def)

text \<open>
  C3, amended: when the file loads and the list contains a number below 1 or above the
  page count, the call returns the validation error that names exactly those numbers,
  in the order and with the repetitions of the list, together with the page count;
  the file system is left as it was, so no page is removed and nothing is written.
\<close>

theorem invalid_page_numbers_rejected:
  assumes "loads lib fs p d"
    and "\<exists>n \<in> set ns. n < 1 \<or> n > of_nat (getPageCount d)"
  shows "remove_pdf_pages lib p ns fs =
           (InvalidPageNumbers (filter (invalid_page (getPageCount d)) ns) (getPageCount d), fs)
         \<and> set (filter (invalid_page (getPageCount d)) ns)
           = {n \<in> set ns. n < 1 \<or> n > of_nat (getPageCount d)}"
proof -
  from assms(2) have "filter (invalid_page (getPageCount d)) ns \<noteq> []"
    by (auto simp: filter_empty_conv invalid_page_def)
  with assms(1) show ?thesis
    by (auto simp: remove_pdf_pages_unfold loads_def invalid_page_def split: option.splits)
qed

theorem invalid_page_numbers_rejected_witness:
  "loads toy_lib disk0 ''a.pdf'' \<lparr>doc_pages = map square_page [10, 20, 30], doc_fonts = []\<rparr>
   \<and> (\<exists>n \<in> set [4, 2, 0, 1 / 2 :: number]. n < 1 \<or> n > 3)
   \<and> remove_pdf_pages toy_lib ''a.pdf'' [4, 2, 0, 1 / 2] disk0
      = (InvalidPageNumbers [4, 0, 1 / 2] 3, disk0)"
proof -
  have h1: "loads toy_lib disk0 ''a.pdf''
              \<lparr>doc_pages = map square_page [10, 20, 30], doc_fonts = []\<rparr>"
    by (simp add: toy_defs loads_def)
  have h2: "\<exists>n \<in> set [4, 2, 0, 1 / 2 :: number].
              n < 1 \<or> n > of_nat (getPageCount
                \<lparr>doc_pages = map square_page [10, 20, 30], doc_fonts = []\<rparr>)"
    by (simp add: getPageCount_def)
  from invalid_page_numbers_rejected [OF h1 h2] h1 show ?thesis
    by (simp add: getPageCount_def invalid_page_def)
qed

subsection \<open>C4: the page order of a merge\<close>

text \<open>
  C4: when every input path loads, in list order, the documents \<open>docs\<close>, the document that
  merge-pdfs accumulates, serialises and writes to the output path has as its pages the
  pages of the first document in their order, then those of the second, and so on; its
  page count is the sum of the inputs' page counts.
\<close>

theorem merge_concatenates_pages:
  assumes "list_all2 (loads lib fs) pdfPaths docs"
    and "write_pdf lib \<lparr>doc_pages = concat (map doc_pages docs), doc_fonts = []\<rparr> = Inr out"
    and "outputPath \<notin> read_only fs"
  shows "merge_loop lib PDFDocument_create pdfPaths fs
           = (Inr \<lparr>doc_pages = concat (map doc_pages docs), doc_fonts = []\<rparr>, fs)
         \<and> merge_pdfs lib pdfPaths outputPath fs
           = (MergedPDFs (length pdfPaths) outputPath,
              fs\<lparr>files := (files fs)(outputPath \<mapsto> out)\<rparr>)
         \<and> length (concat (map doc_pages docs)) = sum_list (map getPageCount docs)"
proof -
  have loop: "merge_loop lib PDFDocument_create pdfPaths fs
           = (Inr \<lparr>doc_pages = concat (map doc_pages docs), doc_fonts = []\<rparr>, fs)"
    using merge_loop_concat [OF assms(1), of PDFDocument_create]
    by (simp add: PDFDocument_create_def)
  have "merge_pdfs lib pdfPaths outputPath fs
           = (MergedPDFs (length pdfPaths) outputPath,
              fs\<lparr>files := (files fs)(outputPath \<mapsto> out)\<rparr>)"
    unfolding merge_pdfs_unfold loop using assms(2,3) by simp
  moreover have "length (concat (map doc_pages docs)) = sum_list (map getPageCount docs)"
    by (induction docs) (simp_all add: getPageCount_def)
  ultimately show ?thesis using loop by simp
qed

theorem merge_concatenates_pages_witness:
  "list_all2 (loads toy_lib disk0) [''a.pdf'', ''b.pdf'']
     [\<lparr>doc_pages = map square_page [10, 20, 30], doc_fonts = []\<rparr>,
      \<lparr>doc_pages = map square_page [40, 50], doc_fonts = []\<rparr>]
   \<and> write_pdf toy_lib \<lparr>doc_pages = map square_page [10, 20, 30, 40, 50], doc_fonts = []\<rparr>
      = Inr [37, 10, 20, 30, 40, 50]
   \<and> ''out.pdf'' \<notin> read_only disk0
   \<and> merge_pdfs toy_lib [''a.pdf'', ''b.pdf''] ''out.pdf'' disk0
      = (MergedPDFs 2 ''out.pdf'',
         disk0\<lparr>files := (files disk0)(''out.pdf'' \<mapsto> [37, 10, 20, 30, 40, 50])\<rparr>)"
proof -
  have h1: "list_all2 (loads toy_lib disk0) [''a.pdf'', ''b.pdf'']
     [\<lparr>doc_pages = map square_page [10, 20, 30], doc_fonts = []\<rparr>,
      \<lparr>doc_pages = map square_page [40, 50], doc_fonts = []\<rparr>]"
    by (simp add: toy_defs loads_def)
  have h2: "write_pdf toy_lib
      \<lparr>doc_pages = concat (map doc_pages
         [\<lparr>doc_pages = map square_page [10, 20, 30], doc_fonts = []\<rparr>,
          \<lparr>doc_pages = map square_page [40, 50], doc_fonts = []\<rparr>]), doc_fonts = []\<rparr>
      = Inr [37, 10, 20, 30, 40, 50]"
    by (simp add: toy_defs)
  have h3: "''out.pdf'' \<notin> read_only disk0"
    by (simp add: disk0_def)
  from merge_concatenates_pages [OF h1 h2 h3] h1 h2 h3 show ?thesis
    by simp
qed

subsection \<open>C5: a failed call leaves the disk as it was\<close>

text \<open>
  C5: whenever one of the three tools returns an error text, a validation error or a
  processing error raised while reading, loading, transforming, serialising or opening
  the file for writing, the file system after the call is the one before it. The only
  write of a handler is its last statement before the success payload.
\<close>

theorem error_leaves_disk_unchanged:
  "(is_error_text (fst (remove_pdf_pages lib p ns fs))
      \<longrightarrow> snd (remove_pdf_pages lib p ns fs) = fs)
   \<and> (is_error_text (fst (add_text_watermark lib wm q pos fs))
      \<longrightarrow> snd (add_text_watermark lib wm q pos fs) = fs)
   \<and> (is_error_text (fst (merge_pdfs lib ps outp fs))
      \<longrightarrow> snd (merge_pdfs lib ps outp fs) = fs)"
proof (intro conjI impI)
  assume "is_error_text (fst (remove_pdf_pages lib p ns fs))"
  then show "snd (remove_pdf_pages lib p ns fs) = fs"
    by (auto simp: remove_pdf_pages_unfold split: option.splits sum.splits if_splits)
next
  assume "is_error_text (fst (add_text_watermark lib wm q pos fs))"
  then show "snd (add_text_watermark lib wm q pos fs) = fs"
    by (auto simp: add_text_watermark_unfold split: option.splits sum.splits if_splits)
next
  assume a: "is_error_text (fst (merge_pdfs lib ps outp fs))"
  obtain r fs' where m: "merge_loop lib PDFDocument_create ps fs = (r, fs')"
    by (cases "merge_loop lib PDFDocument_create ps fs")
  with merge_loop_fs [of lib PDFDocument_create ps fs] have "fs' = fs" by simp
  with a m show "snd (merge_pdfs lib ps outp fs) = fs"
    by (auto simp: merge_pdfs_unfold split: sum.splits if_splits)
qed

theorem error_leaves_disk_unchanged_witness:
  "is_error_text (fst (remove_pdf_pages toy_lib ''a.pdf'' [7] disk0))
   \<and> is_error_text (fst (add_text_watermark toy_lib ''DRAFT'' ''none.pdf'' Center disk0))
   \<and> is_error_text (fst (merge_pdfs toy_lib [''a.pdf'', ''none.pdf''] ''a.pdf'' disk0))
   \<and> snd (remove_pdf_pages toy_lib ''a.pdf'' [7] disk0) = disk0
   \<and> snd (add_text_watermark toy_lib ''DRAFT'' ''none.pdf'' Center disk0) = disk0
   \<and> snd (merge_pdfs toy_lib [''a.pdf'', ''none.pdf''] ''a.pdf'' disk0) = disk0"
proof -
  have h1: "is_error_text (fst (remove_pdf_pages toy_lib ''a.pdf'' [7] disk0))"
    by (simp add: remove_pdf_pages_unfold eval_defs)
  have h2: "is_error_text (fst (add_text_watermark toy_lib ''DRAFT'' ''none.pdf'' Center disk0))"
    by (simp add: add_text_watermark_unfold eval_defs)
  have "\<exists>e. merge_loop toy_lib PDFDocument_create [''a.pdf'', ''none.pdf''] disk0 = (Inl e, disk0)"
    by (rule merge_loop_missing) (simp add: disk0_def)
  then have h3: "is_error_text (fst (merge_pdfs toy_lib [''a.pdf'', ''none.pdf''] ''a.pdf'' disk0))"
    unfolding merge_pdfs_unfold by auto
  from h1 h2 h3
    error_leaves_disk_unchanged [where lib = toy_lib and fs = disk0 and p = "''a.pdf''"
      and ns = "[7]" and wm = "''DRAFT''" and q = "''none.pdf''" and pos = Center
      and ps = "[''a.pdf'', ''none.pdf'']" and outp = "''a.pdf''"]
  show ?thesis by blast
qed

subsection \<open>C6: which files a merge writes\<close>

text \<open>
  C6, as stated: merge-pdfs never overwrites an input file, also when the output path is
  one of the input paths. Merging \<^verbatim>\<open>a.pdf\<close> and \<^verbatim>\<open>b.pdf\<close> into \<^verbatim>\<open>a.pdf\<close> succeeds and
  replaces the three pages of the input \<^verbatim>\<open>a.pdf\<close> by the five merged pages.
\<close>

theorem merge_overwrites_input_at_output_path:
  "fst (merge_pdfs toy_lib [''a.pdf'', ''b.pdf''] ''a.pdf'' disk0) = MergedPDFs 2 ''a.pdf''
   \<and> files disk0 ''a.pdf'' = Some [37, 10, 20, 30]
   \<and> files (snd (merge_pdfs toy_lib [''a.pdf'', ''b.pdf''] ''a.pdf'' disk0)) ''a.pdf''
      = Some [37, 10, 20, 30, 40, 50]"
  unfolding merge_pdfs_unfold example_merge_loop by (simp add: toy_defs)

text \<open>
  C6, amended: merge-pdfs writes the accumulated result to the output path and to no
  other path. Every file at a path other than the output path, so every input that is
  not at the output path, holds after the call what it held before, and the set of
  write-protected paths is unchanged. The handler does not compare the output path
  with the input paths.
\<close>

theorem merge_writes_only_output_path:
  assumes "p \<noteq> outputPath"
  shows "files (snd (merge_pdfs lib pdfPaths outputPath fs)) p = files fs p
         \<and> read_only (snd (merge_pdfs lib pdfPaths outputPath fs)) = read_only fs"
proof -
  obtain r fs' where m: "merge_loop lib PDFDocument_create pdfPaths fs = (r, fs')"
    by (cases "merge_loop lib PDFDocument_create pdfPaths fs")
  with merge_loop_fs [of lib PDFDocument_create pdfPaths fs] have "fs' = fs" by simp
  with m assms show ?thesis
    by (auto simp: merge_pdfs_unfold split: sum.splits if_splits)
qed

theorem merge_writes_only_output_path_witness:
  "''b.pdf'' \<noteq> ''a.pdf''
   \<and> files (snd (merge_pdfs toy_lib [''a.pdf'', ''b.pdf''] ''a.pdf'' disk0)) ''b.pdf''
      = Some [37, 40, 50]
   \<and> read_only (snd (merge_pdfs toy_lib [''a.pdf'', ''b.pdf''] ''a.pdf'' disk0)) = {}"
proof -
  have h: "''b.pdf'' \<noteq> ''a.pdf''" by simp
  from merge_writes_only_output_path [OF h, of toy_lib "[''a.pdf'', ''b.pdf'']" disk0]
  show ?thesis by (simp add: disk0_def)
qed

subsection \<open>C7: merging nothing, merging a missing file\<close>

text \<open>
  C7, as stated: an empty list of input paths gives a processing error and no output file.
  With an empty list the loop does nothing, the empty document is serialised, and the
  call reports success and creates the output file.
\<close>

theorem merge_of_no_inputs_succeeds:
  "fst (merge_pdfs toy_lib [] ''out.pdf'' disk0) = MergedPDFs 0 ''out.pdf''
   \<and> \<not> is_error_text (fst (merge_pdfs toy_lib [] ''out.pdf'' disk0))
   \<and> files disk0 ''out.pdf'' = None
   \<and> files (snd (merge_pdfs toy_lib [] ''out.pdf'' disk0)) ''out.pdf'' = Some [37]"
  by (simp add: merge_pdfs_unfold toy_defs PDFDocument_create_def)

text \<open>
  C7, amended: when the list of input paths contains a path at which there is no file,
  the call returns a processing error (\<^verbatim>\<open>Error merging PDFs: ...\<close>) and the file system
  is left as it was: no output file is created or modified.
\<close>

theorem merge_missing_input_is_error:
  assumes "\<exists>p \<in> set pdfPaths. files fs p = None"
  shows "\<exists>e. merge_pdfs lib pdfPaths outputPath fs = (ErrorMergingPDFs e, fs)"
proof -
  from merge_loop_missing [OF assms, of lib PDFDocument_create]
  obtain e where "merge_loop lib PDFDocument_create pdfPaths fs = (Inl e, fs)" ..
  then show ?thesis by (simp add: merge_pdfs_unfold)
qed

theorem merge_missing_input_is_error_witness:
  "(\<exists>p \<in> set [''a.pdf'', ''none.pdf'']. files disk0 p = None)
   \<and> (\<exists>e. merge_pdfs toy_lib [''a.pdf'', ''none.pdf''] ''out.pdf'' disk0
          = (ErrorMergingPDFs e, disk0))
   \<and> files disk0 ''out.pdf'' = None"
proof -
  have h: "\<exists>p \<in> set [''a.pdf'', ''none.pdf'']. files disk0 p = None"
    by (simp add: disk0_def)
  from merge_missing_input_is_error [OF h, of toy_lib "''out.pdf''"] h show ?thesis
    by (simp add: disk0_def)
qed

subsection \<open>C8: the order of the page numbers\<close>

text \<open>
  C8: two lists of valid page numbers that hold the same numbers in different orders
  (each a permutation of the other, as \<open>[3, 1]\<close> and \<open>[1, 3]\<close>) sort to the same
  descending list, so the two calls return the same payload and leave the same file
  system.
\<close>

theorem removal_order_independent:
  assumes "mset ns = mset ns'"
    and "loads lib fs p d"
    and "\<forall>n \<in> set ns. 1 \<le> n \<and> n \<le> of_nat (getPageCount d)"
  shows "sort_descending ns = sort_descending ns'
         \<and> remove_pdf_pages lib p ns fs = remove_pdf_pages lib p ns' fs"
proof -
  have s: "sort_descending ns = sort_descending ns'"
    using assms(1) by (rule sort_descending_mset)
  from assms(1) have "set ns' = set ns" by (metis set_mset_mset)
  with assms(3) have v: "filter (invalid_page (getPageCount d)) ns = []"
    "filter (invalid_page (getPageCount d)) ns' = []"
    by (auto simp: filter_empty_conv invalid_page_def)
  from assms(1) have l: "length ns = length ns'" by (metis size_mset)
  from assms(2) s v l show ?thesis
    by (auto simp: remove_pdf_pages_unfold loads_def split: option.splits sum.splits)
qed

theorem removal_order_independent_witness:
  "mset [3, 1 :: number] = mset [1, 3]
   \<and> loads toy_lib disk0 ''a.pdf'' \<lparr>doc_pages = map square_page [10, 20, 30], doc_fonts = []\<rparr>
   \<and> (1 \<le> (3 :: number) \<and> (3 :: number) \<le> 3) \<and> (1 \<le> (1 :: number) \<and> (1 :: number) \<le> 3)
   \<and> sort_descending [3, 1] = sort_descending [1, 3]
   \<and> remove_pdf_pages toy_lib ''a.pdf'' [3, 1] disk0
      = remove_pdf_pages toy_lib ''a.pdf'' [1, 3] disk0
   \<and> files (snd (remove_pdf_pages toy_lib ''a.pdf'' [1, 3] disk0)) ''a.pdf'' = Some [37, 20]"
proof -
  have h1: "mset [3, 1 :: number] = mset [1, 3]" by simp
  have h2: "loads toy_lib disk0 ''a.pdf''
              \<lparr>doc_pages = map square_page [10, 20, 30], doc_fonts = []\<rparr>"
    by (simp add: toy_defs loads_def)
  have h3: "\<forall>n \<in> set [3, 1 :: number]. 1 \<le> n \<and> n \<le> of_nat (getPageCount
              \<lparr>doc_pages = map square_page [10, 20, 30], doc_fonts = []\<rparr>)"
    by (simp add: getPageCount_def)
  have "files (snd (remove_pdf_pages toy_lib ''a.pdf'' [1, 3] disk0)) ''a.pdf'' = Some [37, 20]"
    by (simp add: remove_pdf_pages_unfold eval_defs)
  with removal_order_independent [OF h1 h2 h3] h1 h2 show ?thesis
    by simp
qed

subsection \<open>C9: where the watermark is drawn\<close>

text \<open>
  C9, as stated: corner and edge positions are offset from the page boundary by the
  padding. For \<^verbatim>\<open>bottomRight\<close> on a 600 by 800 page that is the point \<open>(550, 50)\<close>; the
  handler draws at \<open>(300, 100)\<close>.
\<close>

theorem bottom_right_anchor_not_padding:
  "watermark_anchor BottomRight 600 800 = (300, 100)
   \<and> claimed_anchor BottomRight 600 800 = (550, 50)
   \<and> watermark_anchor BottomRight 600 800 \<noteq> claimed_anchor BottomRight 600 800"
  by (simp add: claimed_anchor_def padding_def textSize_def)

text \<open>
  C9, amended: on every page the watermark is drawn with text size 50 at an anchor
  computed from that page's own width and height. Horizontally: left corners at the
  padding 50, right corners at the width minus 300, the other positions at half the width
  minus 150 (150 standing for half the width of the text, whatever the text).
  Vertically: top positions at the height minus the padding, bottom positions at the
  padding plus the text size (100), \<^verbatim>\<open>center\<close> at half the height.
\<close>

theorem watermark_drawn_at_anchor_rule:
  assumes "draw_watermarks lib wm pos d = Inr d'"
  shows "doc_pages d' = map (stamped wm pos) (doc_pages d)
         \<and> watermark_anchor pos w h = anchor_rule pos w h"
proof -
  have rule: "watermark_anchor pos w h = anchor_rule pos w h" for w h
    by (cases pos) (simp_all add: anchor_rule_def)
  have "(\<lambda>pg. pg\<lparr>page_content := page_content pg @ [watermark_options wm pos pg]\<rparr>)
          = stamped wm pos"
    by (rule ext) (simp add: stamped_def watermark_options_def rule textSize_def)
  moreover from assms obtain pgs where "watermark_loop lib wm pos (doc_pages d) = Inr pgs"
    and "doc_pages d' = pgs"
    by (auto simp: draw_watermarks_def split: sum.splits)
  ultimately show ?thesis
    using watermark_loop_map [of lib wm pos "doc_pages d" pgs] rule by simp
qed

theorem watermark_drawn_at_anchor_rule_witness:
  "draw_watermarks toy_lib ''DRAFT'' TopRight
       \<lparr>doc_pages = [\<lparr>page_width = 600, page_height = 800, page_content = []\<rparr>], doc_fonts = []\<rparr>
     = Inr \<lparr>doc_pages = [stamped ''DRAFT'' TopRight
              \<lparr>page_width = 600, page_height = 800, page_content = []\<rparr>], doc_fonts = []\<rparr>
   \<and> doc_pages \<lparr>doc_pages = [stamped ''DRAFT'' TopRight
              \<lparr>page_width = 600, page_height = 800, page_content = []\<rparr>], doc_fonts = []\<rparr>
     = map (stamped ''DRAFT'' TopRight)
         (doc_pages \<lparr>doc_pages = [\<lparr>page_width = 600, page_height = 800, page_content = []\<rparr>],
            doc_fonts = []\<rparr>)
   \<and> watermark_anchor TopRight 600 800 = anchor_rule TopRight 600 800
   \<and> anchor_rule TopRight 600 800 = (300, 750)"
proof -
  have h: "draw_watermarks toy_lib ''DRAFT'' TopRight
       \<lparr>doc_pages = [\<lparr>page_width = 600, page_height = 800, page_content = []\<rparr>], doc_fonts = []\<rparr>
     = Inr \<lparr>doc_pages = [stamped ''DRAFT'' TopRight
              \<lparr>page_width = 600, page_height = 800, page_content = []\<rparr>], doc_fonts = []\<rparr>"
    by (simp add: draw_watermarks_def drawText_def toy_lib_def stamped_def watermark_options_def
        anchor_rule_def textSize_def padding_def)
  have "anchor_rule TopRight 600 800 = (300, 750)"
    by (simp add: anchor_rule_def padding_def)
  with watermark_drawn_at_anchor_rule [OF h, of 600 800] h show ?thesis
    by simp
qed

subsection \<open>C10: a page number that is not an integer\<close>



end
